theory Spec2Isabelle
  imports Complex_Main
begin

section \<open>JavaScript values\<close>

text \<open>
  The handlers of \<^verbatim>\<open>server.js\<close> receive values produced by JSON and form parsers and
  test them with \<^verbatim>\<open>!v\<close>, \<^verbatim>\<open>typeof v\<close>, \<^verbatim>\<open>Set.prototype.has\<close> and the optional chain
  \<^verbatim>\<open>v?.k\<close>. A value is therefore one of the JSON shapes, or \<^verbatim>\<open>undefined\<close> for a field
  that is absent. Numbers are kept as integers: the handlers only ask whether a number is
  zero and whether two numbers are equal. A string is the list of its code units, each
  of them below 256 (the type \<open>char\<close>).
\<close>

datatype jsval =
    JUndefined
  | JNull
  | JBool bool
  | JNum int
  | JStr string
  | JArr "jsval list"
  | JObj "(string \<times> jsval) list"

text \<open>\<^verbatim>\<open>!v\<close> is false exactly for the truthy values.\<close>

fun truthy :: "jsval \<Rightarrow> bool" where
  "truthy JUndefined = False"
| "truthy JNull = False"
| "truthy (JBool b) = b"
| "truthy (JNum n) = (n \<noteq> 0)"
| "truthy (JStr s) = (s \<noteq> [])"
| "truthy (JArr xs) = True"
| "truthy (JObj kvs) = True"

text \<open>\<^verbatim>\<open>typeof v === "string"\<close>.\<close>

fun typeof_string :: "jsval \<Rightarrow> bool" where
  "typeof_string (JStr s) = True"
| "typeof_string v = False"

text \<open>Arrays and plain objects are heap objects; every other value is a primitive.\<close>

fun primitive :: "jsval \<Rightarrow> bool" where
  "primitive (JArr xs) = False"
| "primitive (JObj kvs) = False"
| "primitive v = True"

text \<open>
  \<^verbatim>\<open>v?.k\<close> for a property name \<open>k\<close> that is neither an array index nor a name found on
  a prototype (the source asks for \<^verbatim>\<open>metadata\<close>, \<^verbatim>\<open>token\<close>, \<^verbatim>\<open>prompt\<close>, \<^verbatim>\<open>data\<close>,
  \<^verbatim>\<open>b64_json\<close> and \<^verbatim>\<open>url\<close>): \<^verbatim>\<open>undefined\<close> on \<^verbatim>\<open>undefined\<close> and \<^verbatim>\<open>null\<close> (the short
  circuit), the own property of an object, and \<^verbatim>\<open>undefined\<close> on every other value.
  The plain \<^verbatim>\<open>v.k\<close> gives the same on every value but \<^verbatim>\<open>undefined\<close> and \<^verbatim>\<open>null\<close>, the
  \<open>nullish\<close> values, on which it throws a TypeError.
\<close>

fun nullish :: "jsval \<Rightarrow> bool" where
  "nullish JUndefined = True"
| "nullish JNull = True"
| "nullish v = False"

fun opt_member :: "jsval \<Rightarrow> string \<Rightarrow> jsval" where
  "opt_member (JObj kvs) k = (case map_of kvs k of Some v \<Rightarrow> v | None \<Rightarrow> JUndefined)"
| "opt_member v k = JUndefined"

text \<open>
  \<^verbatim>\<open>v?.[0]\<close>: the first element of an array, the first code unit of a string, the
  property \<^verbatim>\<open>"0"\<close> of an object, \<^verbatim>\<open>undefined\<close> otherwise.
\<close>

fun opt_first :: "jsval \<Rightarrow> jsval" where
  "opt_first (JArr []) = JUndefined"
| "opt_first (JArr (x # xs)) = x"
| "opt_first (JStr []) = JUndefined"
| "opt_first (JStr (c # cs)) = JStr [c]"
| "opt_first (JObj kvs) = (case map_of kvs ''0'' of Some v \<Rightarrow> v | None \<Rightarrow> JUndefined)"
| "opt_first v = JUndefined"

text \<open>
  A template literal \<^verbatim>\<open>`...${v}`\<close> converts \<open>v\<close> to a string. The conversion throws a
  TypeError on an object that carries its own \<^verbatim>\<open>toString\<close> property (a parsed value is
  never callable, and the inherited \<^verbatim>\<open>valueOf\<close> returns the object itself), and on an
  array one of whose elements throws; \<^verbatim>\<open>null\<close> and \<^verbatim>\<open>undefined\<close> elements are joined as
  empty strings.
\<close>

fun to_string_throws :: "jsval \<Rightarrow> bool" where
  "to_string_throws (JObj kvs) = (map_of kvs ''toString'' \<noteq> None)"
| "to_string_throws (JArr xs) = (\<exists>x \<in> set xs. to_string_throws x)"
| "to_string_throws v = False"

section \<open>Strings: trim, the denylist replacement, the prompt template\<close>

text \<open>
  The white space removed by \<^verbatim>\<open>String.prototype.trim\<close>, among the code units below 256:
  tab, line feed, vertical tab, form feed, carriage return, space and no-break space.
\<close>

definition is_white_space :: "char \<Rightarrow> bool" where
  "is_white_space c = (of_char c \<in> {9, 10, 11, 12, 13, 32, 160 :: nat})"

definition trim :: "string \<Rightarrow> string" where
  "trim s = rev (dropWhile is_white_space (rev (dropWhile is_white_space s)))"

text \<open>
  The regular expression \<^verbatim>\<open>/minecraft|skywars/gi\<close> has no \<^verbatim>\<open>u\<close> flag, so two code units
  match when their upper-case forms agree, and the upper-case form of a code unit
  outside ASCII is never an ASCII letter. \<open>canonicalize c\<close> is the code of the upper-case
  form of \<open>c\<close> for an ASCII \<open>c\<close>; it leaves every other code as it is, which decides
  every comparison with the ASCII letters of the two terms as the expression does.
\<close>

definition canonicalize :: "char \<Rightarrow> nat" where
  "canonicalize c =
     (if 97 \<le> (of_char c :: nat) \<and> (of_char c :: nat) \<le> 122
      then of_char c - 32 else of_char c)"

text \<open>\<open>matches_at p s\<close>: the literal \<open>p\<close> matches, ignoring case, at the start of \<open>s\<close>.\<close>

fun matches_at :: "string \<Rightarrow> string \<Rightarrow> bool" where
  "matches_at [] s = True"
| "matches_at (p # ps) [] = False"
| "matches_at (p # ps) (c # cs) = (canonicalize p = canonicalize c \<and> matches_at ps cs)"

text \<open>
  \<^verbatim>\<open>prompt.replace(/minecraft|skywars/gi, "pixel fantasy")\<close>: the scan goes left to right;
  where an alternative matches (the first one is tried first) the match is replaced and
  the scan resumes after it, otherwise the code unit is copied.
\<close>

fun replace_terms :: "string \<Rightarrow> string" where
  "replace_terms [] = []"
| "replace_terms (c # cs) =
     (if matches_at ''minecraft'' (c # cs) then ''pixel fantasy'' @ replace_terms (drop 8 cs)
      else if matches_at ''skywars'' (c # cs) then ''pixel fantasy'' @ replace_terms (drop 6 cs)
      else c # replace_terms cs)"

definition safePrompt :: "string \<Rightarrow> string" where
  "safePrompt prompt = trim (replace_terms prompt)"

definition template_head :: string where
  "template_head =
     [CHR 0x0A] @ ''Crie um '' @ [CHR 0xED] @ ''cone de app (logo) para um jogo RPG de aventura.''
     @ [CHR 0x0A] @ ''Estilo: detalhado, dram'' @ [CHR 0xE1] @ ''tico, alto contraste, ''
     @ [CHR 0xED] @ ''cone central, visual premium.''
     @ [CHR 0x0A] @ ''Elementos: ''"

definition template_tail :: string where
  "template_tail =
     ''.'' @ [CHR 0x0A] @ ''Fundo: cor chapada (flat), sem textura, sem papel, sem mockup.''
     @ [CHR 0x0A] @ ''Sem texto, sem letras, sem marca d'' @ [CHR 0x27, CHR 0xE1] @ ''gua.''
     @ [CHR 0x0A] @ ''Formato: app icon, cantos arredondados.''
     @ [CHR 0x0A] @ ''Paleta: azul meia-noite, cinza a'' @ [CHR 0xE7] @ ''o, laranja fogo.''
     @ [CHR 0x0A]"

definition finalPrompt :: "string \<Rightarrow> string" where
  "finalPrompt safe = trim (template_head @ safe @ template_tail)"

text \<open>Substring tests, exact and ignoring case.\<close>

fun starts_with :: "string \<Rightarrow> string \<Rightarrow> bool" where
  "starts_with [] s = True"
| "starts_with (p # ps) [] = False"
| "starts_with (p # ps) (c # cs) = (p = c \<and> starts_with ps cs)"

fun contains :: "string \<Rightarrow> string \<Rightarrow> bool" where
  "contains [] p = starts_with p []"
| "contains (c # cs) p = (starts_with p (c # cs) \<or> contains cs p)"

fun contains_ci :: "string \<Rightarrow> string \<Rightarrow> bool" where
  "contains_ci [] p = matches_at p []"
| "contains_ci (c # cs) p = (matches_at p (c # cs) \<or> contains_ci cs p)"

text \<open>
  \<open>replaced s s'\<close>: \<open>s'\<close> is \<open>s\<close> in which some occurrences of the two terms, in any
  mix of upper and lower case, have each become \<^verbatim>\<open>pixel fantasy\<close>, and nothing else has
  changed.
\<close>

definition same_letters :: "string \<Rightarrow> string \<Rightarrow> bool" where
  "same_letters w p = (map canonicalize w = map canonicalize p)"

fun replaced :: "string \<Rightarrow> string \<Rightarrow> bool" where
  "replaced [] s' = (s' = [])"
| "replaced (c # cs) s' =
     ((same_letters (take 9 (c # cs)) ''minecraft''
         \<and> starts_with ''pixel fantasy'' s' \<and> replaced (drop 8 cs) (drop 13 s'))
      \<or> (same_letters (take 7 (c # cs)) ''skywars''
         \<and> starts_with ''pixel fantasy'' s' \<and> replaced (drop 6 cs) (drop 13 s'))
      \<or> (case s' of [] \<Rightarrow> False | d # ds \<Rightarrow> d = c \<and> replaced cs ds))"

section \<open>The token store\<close>

text \<open>
  \<^verbatim>\<open>const paidTokens = new Set()\<close>. \<^verbatim>\<open>Set.prototype.has\<close> and \<^verbatim>\<open>delete\<close> compare with
  SameValueZero: primitives by value, heap objects by reference. A value that a parser
  has just built for a request is a new reference, so it is the same as a stored value
  only when it is a primitive equal to it.
\<close>

type_synonym store = "jsval set"

definition same_value_zero :: "jsval \<Rightarrow> jsval \<Rightarrow> bool" where
  "same_value_zero v u = (primitive v \<and> v = u)"

definition has :: "store \<Rightarrow> jsval \<Rightarrow> bool" where
  "has paidTokens v = (\<exists>u \<in> paidTokens. same_value_zero v u)"

definition delete :: "store \<Rightarrow> jsval \<Rightarrow> store" where
  "delete paidTokens v = {u \<in> paidTokens. \<not> same_value_zero v u}"

definition add :: "store \<Rightarrow> jsval \<Rightarrow> store" where
  "add paidTokens v = insert v paidTokens"

section \<open>Responses\<close>

text \<open>
  What a handler sends: \<^verbatim>\<open>res.json\<close> of one of the objects the source builds,
  \<^verbatim>\<open>res.send\<close> of a text, or \<^verbatim>\<open>res.render\<close> of a view. \<open>ImageDataJson v\<close> stands for
  \<^verbatim>\<open>{ image: `data:image/png;base64,${v}` }\<close> and \<open>ImageJson v\<close> for \<^verbatim>\<open>{ image: v }\<close>.
\<close>

datatype body =
    ErrorJson string "string option"
  | ImageDataJson jsval
  | ImageJson jsval
  | UrlJson jsval
  | ReceivedJson
  | SendText string
  | Render string "jsval option"

record response =
  status :: nat
  body :: body

definition reply :: "nat \<Rightarrow> body \<Rightarrow> response" where
  "reply code b = \<lparr>status = code, body = b\<rparr>"

section \<open>The webhook\<close>

text \<open>
  \<^verbatim>\<open>stripe.webhooks.constructEvent(req.body, sig, secret)\<close> belongs to the Stripe library:
  it either throws (\<open>Inl\<close> the error's message) or returns the event. The handler takes
  it as a parameter. Of the event, the handler reads \<^verbatim>\<open>event.type\<close> and
  \<^verbatim>\<open>event.data.object\<close>.
\<close>

record event =
  etype :: string
  data_object :: jsval

record webhook_request =
  raw_body :: string
  stripe_signature :: "string option"

type_synonym construct_event = "string \<Rightarrow> string option \<Rightarrow> string option \<Rightarrow> string + event"

text \<open>\<^verbatim>\<open>session?.metadata?.token\<close>.\<close>

definition metadata_token :: "jsval \<Rightarrow> jsval" where
  "metadata_token session = opt_member (opt_member session ''metadata'') ''token''"

definition webhook ::
  "construct_event \<Rightarrow> string option \<Rightarrow> store \<Rightarrow> webhook_request \<Rightarrow> store \<times> response" where
  "webhook constructEvent secret paidTokens req =
     (let sig = stripe_signature req in
      case constructEvent (raw_body req) sig secret of
        Inl message \<Rightarrow> (paidTokens, reply 400 (SendText (''Webhook Error: '' @ message)))
      | Inr ev \<Rightarrow>
          (let paidTokens' =
                 (if etype ev = ''checkout.session.completed'' then
                    (let session = data_object ev;
                         token = metadata_token session
                     in if truthy token then add paidTokens token else paidTokens)
                  else paidTokens)
           in (paidTokens', reply 200 ReceivedJson)))"

section \<open>Token generation and the payment session\<close>

text \<open>
  Numbers in \<^verbatim>\<open>cryptoRandomString\<close> are IEEE 754 doubles, kept here as the rationals
  they stand for. A double is a multiple of its unit in the last place, \<open>1 / 2 ^ n\<close>,
  where \<open>n\<close> is the least number with \<open>2 ^ 52 \<le> x * 2 ^ n\<close>, and 1074 at most (the
  subnormal numbers); \<open>ulp_shift x 0\<close> is that \<open>n\<close>. A product is the double nearest
  to the exact product, the one with the even last digit when two are as near.
  \<open>round_double\<close> is written for the numbers that occur here, \<open>0 \<le> x\<close> and
  \<open>x < 2 ^ 53\<close>: the product of \<^verbatim>\<open>Math.random()\<close> and \<^verbatim>\<open>chars.length\<close> is below 62.
\<close>

definition round_half_even :: "rat \<Rightarrow> int" where
  "round_half_even q =
     (let f = \<lfloor>q\<rfloor>; d = q - of_int f
      in if d < 1 / 2 then f else if 1 / 2 < d then f + 1 else if even f then f else f + 1)"

function ulp_shift :: "rat \<Rightarrow> nat \<Rightarrow> nat" where
  "ulp_shift x n = (if 1074 \<le> n \<or> 2 ^ 52 \<le> x * 2 ^ n then n else ulp_shift x (n + 1))"
  by pat_completeness auto
termination
  by (relation "measure (\<lambda>(x, n). 1074 - n)") auto

declare ulp_shift.simps [simp del]

definition round_double :: "rat \<Rightarrow> rat" where
  "round_double x =
     (let n = ulp_shift x 0 in of_int (round_half_even (x * 2 ^ n)) / 2 ^ n)"

definition times_double :: "rat \<Rightarrow> rat \<Rightarrow> rat" where
  "times_double a b = round_double (a * b)"

definition is_double :: "rat \<Rightarrow> bool" where
  "is_double x = (round_double x = x)"

text \<open>
  \<^verbatim>\<open>Math.random()\<close> is an input: \<open>random i\<close> is the double that the \<open>i\<close>-th call returns.
  \<^verbatim>\<open>Math.floor\<close> of a double is its floor. \<^verbatim>\<open>chars[k]\<close> outside the string is
  \<^verbatim>\<open>undefined\<close>, which \<^verbatim>\<open>+=\<close> appends as the text \<^verbatim>\<open>undefined\<close>.
\<close>

definition chars :: string where
  "chars = ''abcdefghijklmnopqrstuvwxyzABCDEFGHIJKLMNOPQRSTUVWXYZ0123456789''"

definition char_at :: "string \<Rightarrow> int \<Rightarrow> string" where
  "char_at s k = (if 0 \<le> k \<and> k < int (length s) then [s ! nat k] else ''undefined'')"

function cryptoRandomString_loop :: "(nat \<Rightarrow> rat) \<Rightarrow> nat \<Rightarrow> nat \<Rightarrow> string \<Rightarrow> string" where
  "cryptoRandomString_loop random len i out =
     (if i < len
      then cryptoRandomString_loop random len (i + 1)
             (out @ char_at chars \<lfloor>times_double (random i) (rat_of_nat (length chars))\<rfloor>)
      else out)"
  by pat_completeness auto
termination
  by (relation "measure (\<lambda>(random, len, i, out). len - i)") auto

declare cryptoRandomString_loop.simps [simp del]

definition cryptoRandomString :: "(nat \<Rightarrow> rat) \<Rightarrow> nat \<Rightarrow> string" where
  "cryptoRandomString random len = cryptoRandomString_loop random len 0 []"

text \<open>The letters a to z and A to Z and the digits 0 to 9, by their codes.\<close>

definition alphanumeric :: "char \<Rightarrow> bool" where
  "alphanumeric c =
     ((97 \<le> (of_char c :: nat) \<and> (of_char c :: nat) \<le> 122)
      \<or> (65 \<le> (of_char c :: nat) \<and> (of_char c :: nat) \<le> 90)
      \<or> (48 \<le> (of_char c :: nat) \<and> (of_char c :: nat) \<le> 57))"

definition makeToken :: "(nat \<Rightarrow> rat) \<Rightarrow> string" where
  "makeToken random = cryptoRandomString random 32"

text \<open>
  \<^verbatim>\<open>POST /pagar\<close>: \<^verbatim>\<open>stripe.checkout.sessions.create\<close> is given the new token in the
  session metadata and either throws (\<open>Inl\<close> the error as text) or returns a session, of
  which the handler sends \<^verbatim>\<open>session.url\<close>.
\<close>

definition pagar :: "(nat \<Rightarrow> rat) \<Rightarrow> (string \<Rightarrow> string + jsval) \<Rightarrow> store \<Rightarrow> store \<times> response" where
  "pagar random create paidTokens =
     (let token = makeToken random in
      case create token of
        Inr url \<Rightarrow> (paidTokens, reply 200 (UrlJson url))
      | Inl e \<Rightarrow> (paidTokens, reply 500 (ErrorJson ''Erro ao criar pagamento'' (Some e))))"

section \<open>The gated page and the generation gateway\<close>

definition criar :: "store \<Rightarrow> jsval \<Rightarrow> store \<times> response" where
  "criar paidTokens token =
     (let ok = truthy token \<and> has paidTokens token in
      if \<not> ok
      then (paidTokens,
            reply 403 (SendText (''Acesso negado. Pague R$ 5 para liberar a cria''
                                 @ [CHR 0xE7, CHR 0xE3] @ ''o.'')))
      else (paidTokens, reply 200 (Render ''criar'' (Some token))))"

text \<open>
  \<^verbatim>\<open>req.body\<close> of \<^verbatim>\<open>POST /api/generate\<close> is what the body parsers left: the parsed object
  or array when one of them took the request, and otherwise \<^verbatim>\<open>undefined\<close> (Express 5) or
  an empty object (Express 4). \<^verbatim>\<open>const { token, prompt } = req.body\<close>, inside the
  \<^verbatim>\<open>try\<close>, throws a TypeError on \<^verbatim>\<open>undefined\<close> and \<^verbatim>\<open>null\<close> and otherwise reads the two
  properties (\<^verbatim>\<open>undefined\<close> when absent).

  \<^verbatim>\<open>fetch\<close> is given the composed prompt (the model name and the size are constants) and
  either rejects (\<open>Inl\<close> the error as text) or resolves to a response, of which the
  handler reads \<^verbatim>\<open>ok\<close> and awaits \<^verbatim>\<open>text()\<close> or \<^verbatim>\<open>json()\<close>; each of the two either rejects
  (\<open>Inl\<close>; \<^verbatim>\<open>json()\<close> does so on a body that is not JSON) or resolves.
\<close>

definition body_token :: "jsval \<Rightarrow> jsval" where
  "body_token req_body = opt_member req_body ''token''"

definition body_prompt :: "jsval \<Rightarrow> jsval" where
  "body_prompt req_body = opt_member req_body ''prompt''"

definition destructure_error :: "jsval \<Rightarrow> string" where
  "destructure_error req_body =
     ''TypeError: Cannot destructure property '' @ [CHR 0x27] @ ''token'' @ [CHR 0x27]
     @ '' of '' @ [CHR 0x27] @ ''req.body'' @ [CHR 0x27] @ '' as it is ''
     @ (if req_body = JNull then ''null'' else ''undefined'') @ ''.''"

record upstream =
  resp_ok :: bool
  resp_text :: "string + string"
  resp_json :: "string + jsval"

type_synonym fetch = "string \<Rightarrow> string + upstream"

text \<open>\<^verbatim>\<open>data?.data?.[0]?.b64_json\<close> and \<^verbatim>\<open>data?.data?.[0]?.url\<close>.\<close>

definition first_b64_json :: "jsval \<Rightarrow> jsval" where
  "first_b64_json data = opt_member (opt_first (opt_member data ''data'')) ''b64_json''"

definition first_url :: "jsval \<Rightarrow> jsval" where
  "first_url data = opt_member (opt_first (opt_member data ''data'')) ''url''"

definition internal_error :: "string \<Rightarrow> response" where
  "internal_error e = reply 500 (ErrorJson ''Erro interno.'' (Some e))"

text \<open>
  The handler from \<^verbatim>\<open>const safePrompt = ...\<close> on, for a token \<open>tok\<close> that passed the
  payment check and a prompt that is the string \<open>p\<close>.
\<close>

definition generate_image :: "fetch \<Rightarrow> store \<Rightarrow> jsval \<Rightarrow> string \<Rightarrow> store \<times> response" where
  "generate_image fetch paidTokens tok p =
     (case fetch (finalPrompt (safePrompt p)) of
        Inl e \<Rightarrow> (paidTokens, internal_error e)
      | Inr resp \<Rightarrow>
          (if \<not> resp_ok resp then
             (case resp_text resp of
                Inl e \<Rightarrow> (paidTokens, internal_error e)
              | Inr txt \<Rightarrow>
                  (paidTokens, reply 500 (ErrorJson ''Falha ao gerar imagem.'' (Some txt))))
           else
             (case resp_json resp of
                Inl e \<Rightarrow> (paidTokens, internal_error e)
              | Inr data \<Rightarrow>
                  (let b64 = first_b64_json data;
                       url = first_url data;
                       paidTokens' = delete paidTokens tok
                   in if truthy b64 then
                        (if to_string_throws b64
                         then (paidTokens',
                               internal_error
                                 ''TypeError: Cannot convert object to primitive value'')
                         else (paidTokens', reply 200 (ImageDataJson b64)))
                      else if truthy url then (paidTokens', reply 200 (ImageJson url))
                      else (paidTokens',
                            reply 500 (ErrorJson ''Resposta inesperada da API.'' None))))))"

definition generate :: "fetch \<Rightarrow> store \<Rightarrow> jsval \<Rightarrow> store \<times> response" where
  "generate fetch paidTokens req_body =
     (if nullish req_body then (paidTokens, internal_error (destructure_error req_body))
      else
        (let token = body_token req_body; prompt = body_prompt req_body
         in if \<not> truthy token \<or> \<not> has paidTokens token then
              (paidTokens,
               reply 403 (ErrorJson (''Pagamento n'' @ [CHR 0xE3] @ ''o confirmado.'') None))
            else if \<not> truthy prompt \<or> \<not> typeof_string prompt then
              (paidTokens, reply 400 (ErrorJson (''Prompt inv'' @ [CHR 0xE1] @ ''lido.'') None))
            else
              (case prompt of
                 JStr p \<Rightarrow> generate_image fetch paidTokens token p
               | _ \<Rightarrow>
                   (paidTokens,
                    reply 400 (ErrorJson (''Prompt inv'' @ [CHR 0xE1] @ ''lido.'') None)))))"

section \<open>The server as a state machine\<close>

text \<open>
  One request, together with what the outside world answers while it is handled. The
  store starts empty and each request is handled to its end before the next, so the
  reachable stores are the \<open>run secret {} rs\<close>.
\<close>

datatype request =
    GetHome
  | PostPagar "nat \<Rightarrow> rat" "string \<Rightarrow> string + jsval"
  | GetSucesso
  | GetCancelado
  | GetCriar jsval
  | PostGenerate fetch jsval
  | PostWebhook construct_event webhook_request

fun handle :: "string option \<Rightarrow> store \<Rightarrow> request \<Rightarrow> store \<times> response" where
  "handle secret paidTokens GetHome = (paidTokens, reply 200 (Render ''home'' None))"
| "handle secret paidTokens (PostPagar random create) = pagar random create paidTokens"
| "handle secret paidTokens GetSucesso = (paidTokens, reply 200 (Render ''sucesso'' None))"
| "handle secret paidTokens GetCancelado = (paidTokens, reply 200 (Render ''cancelado'' None))"
| "handle secret paidTokens (GetCriar tok) = criar paidTokens tok"
| "handle secret paidTokens (PostGenerate fetch req_body) = generate fetch paidTokens req_body"
| "handle secret paidTokens (PostWebhook constructEvent req) =
     webhook constructEvent secret paidTokens req"

fun run :: "string option \<Rightarrow> store \<Rightarrow> request list \<Rightarrow> store" where
  "run secret paidTokens [] = paidTokens"
| "run secret paidTokens (r # rs) = run secret (fst (handle secret paidTokens r)) rs"

section \<open>The history of a token\<close>

text \<open>
  \<open>grants secret r t\<close>: the request \<open>r\<close> is a webhook whose signature is verified, whose
  event is \<^verbatim>\<open>checkout.session.completed\<close> and whose session metadata carries \<open>t\<close>.
\<close>

definition grants :: "string option \<Rightarrow> request \<Rightarrow> jsval \<Rightarrow> bool" where
  "grants secret r t =
     (case r of
        PostWebhook constructEvent req \<Rightarrow>
          (case constructEvent (raw_body req) (stripe_signature req) secret of
             Inr ev \<Rightarrow> etype ev = ''checkout.session.completed''
                       \<and> metadata_token (data_object ev) = t
           | Inl message \<Rightarrow> False)
      | _ \<Rightarrow> False)"

text \<open>
  \<open>consumes r t\<close>: the request \<open>r\<close> is a generation call that presents \<open>t\<close> with a prompt
  that is a non-empty string, and the image API answers it with a success status and a
  body that \<^verbatim>\<open>json()\<close> delivers.
\<close>

definition upstream_success :: "fetch \<Rightarrow> string \<Rightarrow> bool" where
  "upstream_success fetch p =
     (case fetch (finalPrompt (safePrompt p)) of
        Inr resp \<Rightarrow> resp_ok resp \<and> \<not> isl (resp_json resp)
      | Inl e \<Rightarrow> False)"

definition consumes :: "request \<Rightarrow> jsval \<Rightarrow> bool" where
  "consumes r t =
     (case r of
        PostGenerate fetch req_body \<Rightarrow>
          same_value_zero (body_token req_body) t
          \<and> (case body_prompt req_body of
                JStr p \<Rightarrow> p \<noteq> [] \<and> upstream_success fetch p
              | _ \<Rightarrow> False)
      | _ \<Rightarrow> False)"

text \<open>
  \<open>paid_unconsumed secret rs t\<close>: among the requests \<open>rs\<close>, handled in this order, one
  grants \<open>t\<close> and none after it consumes \<open>t\<close>.
\<close>

definition paid_unconsumed :: "string option \<Rightarrow> request list \<Rightarrow> jsval \<Rightarrow> bool" where
  "paid_unconsumed secret rs t =
     (\<exists>i \<in> {..<length rs}. grants secret (rs ! i) t
        \<and> (\<forall>j \<in> {i<..<length rs}. \<not> consumes (rs ! j) t))"

section \<open>Sample environments\<close>

text \<open>
  Outside worlds for the concrete runs below: a \<^verbatim>\<open>constructEvent\<close> that accepts the
  signature and returns a given event, one that throws, a \<^verbatim>\<open>fetch\<close> with one outcome
  whatever it is sent, a \<^verbatim>\<open>Math.random\<close> that returns one number, a number whose
  product with 62 is rounded up to 32, and the body \<^verbatim>\<open>{ token, prompt }\<close>.
\<close>

definition stripe_accepts :: "event \<Rightarrow> construct_event" where
  "stripe_accepts ev payload sig secret = Inr ev"

definition stripe_rejects :: "string \<Rightarrow> construct_event" where
  "stripe_rejects message payload sig secret = Inl message"

definition fetch_constant :: "string + upstream \<Rightarrow> fetch" where
  "fetch_constant outcome p = outcome"

definition random_constant :: "rat \<Rightarrow> nat \<Rightarrow> rat" where
  "random_constant x i = x"

definition rounding_sample :: rat where
  "rounding_sample = 4648877034705028 / 2 ^ 53"

definition generate_body :: "jsval \<Rightarrow> jsval \<Rightarrow> jsval" where
  "generate_body tok p = JObj [(''token'', tok), (''prompt'', p)]"

definition completed_event :: "jsval \<Rightarrow> event" where
  "completed_event tok =
     \<lparr>etype = ''checkout.session.completed'',
      data_object = JObj [(''id'', JStr ''cs_test_1''), (''metadata'', JObj [(''token'', tok)])]\<rparr>"

definition signed_request :: webhook_request where
  "signed_request = \<lparr>raw_body = ''{}'', stripe_signature = Some ''t=1,v1=00''\<rparr>"

section \<open>The store along a run\<close>

lemma run_snoc: "run secret S (rs @ [r]) = fst (handle secret (run secret S rs) r)"
  by (induction rs arbitrary: S) simp_all

lemma generate_image_store:
  "fst (generate_image fetch S tok p) = (if upstream_success fetch p then delete S tok else S)"
  by (simp add: generate_image_def upstream_success_def Let_def split: sum.splits)

text \<open>A body that is \<^verbatim>\<open>undefined\<close> or \<^verbatim>\<open>null\<close> has no token and no prompt.\<close>

lemma nullish_body: "nullish req_body \<Longrightarrow> body_token req_body = JUndefined \<and> body_prompt req_body = JUndefined"
  by (cases req_body) (simp_all add: body_token_def body_prompt_def)

lemma truthy_body_token: "truthy (body_token req_body) \<Longrightarrow> \<not> nullish req_body"
  using nullish_body [of req_body] by auto

lemma generate_body_fields [simp]:
  "body_token (generate_body tok p) = tok"
  "body_prompt (generate_body tok p) = p"
  "\<not> nullish (generate_body tok p)"
  by (simp_all add: generate_body_def body_token_def body_prompt_def)

lemma generate_store:
  "fst (generate fetch S req_body) =
     (if truthy (body_token req_body) \<and> has S (body_token req_body)
         \<and> (case body_prompt req_body of JStr p \<Rightarrow> p \<noteq> [] \<and> upstream_success fetch p | _ \<Rightarrow> False)
      then delete S (body_token req_body) else S)"
proof (cases "nullish req_body")
  case True
  then show ?thesis
    using nullish_body [OF True] by (simp add: generate_def)
next
  case False
  then show ?thesis
    by (cases "body_prompt req_body") (simp_all add: generate_def Let_def generate_image_store)
qed

lemma webhook_store:
  "fst (webhook constructEvent secret S req) =
     (case constructEvent (raw_body req) (stripe_signature req) secret of
        Inl message \<Rightarrow> S
      | Inr ev \<Rightarrow>
          if etype ev = ''checkout.session.completed'' \<and> truthy (metadata_token (data_object ev))
          then insert (metadata_token (data_object ev)) S else S)"
  by (simp add: webhook_def Let_def add_def split: sum.splits)

text \<open>Only truthy values enter the store.\<close>

lemma handle_truthy:
  "\<forall>v \<in> S. truthy v \<Longrightarrow> \<forall>v \<in> fst (handle secret S r). truthy v"
  by (cases r)
    (auto simp: pagar_def criar_def Let_def generate_store webhook_store delete_def
          split: sum.splits if_splits)

lemma run_truthy: "\<forall>v \<in> S. truthy v \<Longrightarrow> \<forall>v \<in> run secret S rs. truthy v"
proof (induction rs arbitrary: S)
  case Nil
  then show ?case by simp
next
  case (Cons r rs)
  have "\<forall>v \<in> fst (handle secret S r). truthy v"
    using Cons.prems by (rule handle_truthy)
  then show ?case
    using Cons.IH by simp
qed

lemma has_run_truthy: "has (run secret {} rs) v \<Longrightarrow> truthy v"
  using run_truthy [of "{}" secret rs] by (auto simp: has_def same_value_zero_def)

text \<open>One request: what it grants comes in, what it consumes goes out.\<close>

lemma handle_member:
  assumes "\<forall>v \<in> S. truthy v"
  shows "t \<in> fst (handle secret S r) \<longleftrightarrow>
           (grants secret r t \<and> truthy t) \<or> (t \<in> S \<and> \<not> consumes r t)"
proof (cases r)
  case (PostGenerate fetch req_body)
  show ?thesis
    using assms
    by (auto simp: PostGenerate grants_def consumes_def generate_store delete_def has_def
          same_value_zero_def split: jsval.splits)
next
  case (PostWebhook constructEvent req)
  show ?thesis
    by (auto simp: PostWebhook grants_def consumes_def webhook_store split: sum.splits)
qed (simp_all add: grants_def consumes_def pagar_def criar_def Let_def split: sum.splits)

lemma paid_unconsumed_Nil: "\<not> paid_unconsumed secret [] t"
  by (simp add: paid_unconsumed_def)

lemma paid_unconsumed_snoc:
  "paid_unconsumed secret (rs @ [r]) t \<longleftrightarrow>
     grants secret r t \<or> (paid_unconsumed secret rs t \<and> \<not> consumes r t)"
proof -
  let ?n = "length rs"
  let ?P = "\<lambda>xs i. grants secret (xs ! i) t
                \<and> (\<forall>j \<in> {i<..<length xs}. \<not> consumes (xs ! j) t)"
  have empty: "{?n<..<Suc ?n} = {}"
    by auto
  have last: "?P (rs @ [r]) ?n \<longleftrightarrow> grants secret r t"
    by (simp add: empty)
  have earlier: "?P (rs @ [r]) i \<longleftrightarrow> ?P rs i \<and> \<not> consumes r t" if "i < ?n" for i
  proof -
    have split: "{i<..<Suc ?n} = insert ?n {i<..<?n}"
      using that by auto
    have "(\<forall>j \<in> {i<..<?n}. \<not> consumes ((rs @ [r]) ! j) t)
            \<longleftrightarrow> (\<forall>j \<in> {i<..<?n}. \<not> consumes (rs ! j) t)"
      by (simp add: nth_append)
    then show ?thesis
      using that by (simp add: split nth_append) blast
  qed
  have "paid_unconsumed secret (rs @ [r]) t
          \<longleftrightarrow> ?P (rs @ [r]) ?n \<or> (\<exists>i \<in> {..<?n}. ?P (rs @ [r]) i)"
    by (simp add: paid_unconsumed_def lessThan_Suc)
  also have "\<dots> \<longleftrightarrow> grants secret r t \<or> (\<exists>i \<in> {..<?n}. ?P rs i \<and> \<not> consumes r t)"
    using last earlier by (metis (no_types, lifting) lessThan_iff)
  also have "\<dots> \<longleftrightarrow> grants secret r t \<or> (paid_unconsumed secret rs t \<and> \<not> consumes r t)"
    by (auto simp: paid_unconsumed_def)
  finally show ?thesis .
qed

section \<open>The prompt sent to the image API\<close>

lemma finalPrompt_eq: "finalPrompt s = tl template_head @ s @ butlast template_tail"
  by (simp add: finalPrompt_def trim_def template_head_def template_tail_def is_white_space_def)

lemma matches_at_append: "matches_at p a \<Longrightarrow> matches_at p (a @ b)"
  by (induction p a rule: matches_at.induct) simp_all

lemma contains_ci_appendI1: "contains_ci a p \<Longrightarrow> contains_ci (a @ b) p"
proof (induction a)
  case Nil
  then have "p = []" by (cases p) simp_all
  then show ?case by (cases b) simp_all
next
  case (Cons c a)
  then show ?case using matches_at_append [of p "c # a" b] by auto
qed

lemma contains_ci_appendI2: "contains_ci b p \<Longrightarrow> contains_ci (a @ b) p"
  by (induction a) simp_all

lemma contains_ci_dropWhile: "contains_ci (dropWhile P s) p \<Longrightarrow> contains_ci s p"
  using contains_ci_appendI2 [of "dropWhile P s" p "takeWhile P s"] by simp

lemma contains_ci_rev_dropWhile: "contains_ci (rev (dropWhile P (rev s))) p \<Longrightarrow> contains_ci s p"
proof -
  assume a: "contains_ci (rev (dropWhile P (rev s))) p"
  have "s = rev (dropWhile P (rev s)) @ rev (takeWhile P (rev s))"
    by (metis rev_append rev_rev_ident takeWhile_dropWhile_id)
  then show ?thesis
    using contains_ci_appendI1 [OF a, of "rev (takeWhile P (rev s))"] by simp
qed

lemma contains_ci_trim: "contains_ci (trim s) p \<Longrightarrow> contains_ci s p"
  unfolding trim_def by (blast dest: contains_ci_rev_dropWhile contains_ci_dropWhile)

lemma replace_terms_minecraft:
  "matches_at ''minecraft'' (c # cs)
   \<Longrightarrow> replace_terms (c # cs) = ''pixel fantasy'' @ replace_terms (drop 8 cs)"
  by (simp only: replace_terms.simps if_True)

lemma replace_terms_skywars:
  "\<not> matches_at ''minecraft'' (c # cs) \<Longrightarrow> matches_at ''skywars'' (c # cs)
   \<Longrightarrow> replace_terms (c # cs) = ''pixel fantasy'' @ replace_terms (drop 6 cs)"
  by (simp only: replace_terms.simps if_True if_False)

lemma replace_terms_keep:
  "\<not> matches_at ''minecraft'' (c # cs) \<Longrightarrow> \<not> matches_at ''skywars'' (c # cs)
   \<Longrightarrow> replace_terms (c # cs) = c # replace_terms cs"
  by (simp only: replace_terms.simps if_False)

lemma phrase_then:
  "contains_ci (''pixel fantasy'' @ r) ''minecraft'' = contains_ci r ''minecraft''"
  "contains_ci (''pixel fantasy'' @ r) ''skywars'' = contains_ci r ''skywars''"
  by (simp_all add: canonicalize_def)

lemma matches_at_replace_terms:
  "\<forall>a \<in> set q. canonicalize a \<noteq> canonicalize CHR ''p'' \<Longrightarrow> matches_at q (replace_terms s)
   \<Longrightarrow> matches_at q s"
proof (induction s arbitrary: q rule: replace_terms.induct)
  case 1
  then show ?case by simp
next
  case (2 c cs)
  show ?case
  proof (cases q)
    case Nil
    then show ?thesis by simp
  next
    case (Cons a q')
    have a: "canonicalize a \<noteq> canonicalize CHR ''p''"
      and q': "\<forall>a \<in> set q'. canonicalize a \<noteq> canonicalize CHR ''p''"
      using "2.prems"(1) Cons by simp_all
    show ?thesis
    proof (cases "matches_at ''minecraft'' (c # cs) \<or> matches_at ''skywars'' (c # cs)")
      case True
      then obtain r where "replace_terms (c # cs) = CHR ''p'' # r"
        using replace_terms_minecraft [of c cs] replace_terms_skywars [of c cs]
        by (cases "matches_at ''minecraft'' (c # cs)") (simp_all del: replace_terms.simps matches_at.simps)
      then have "matches_at (a # q') (CHR ''p'' # r)"
        using "2.prems"(2) Cons by (simp del: replace_terms.simps matches_at.simps)
      then show ?thesis
        using a by simp
    next
      case False
      then have r: "replace_terms (c # cs) = c # replace_terms cs"
        using replace_terms_keep [of c cs] by blast
      have "matches_at (a # q') (c # replace_terms cs)"
        using "2.prems"(2) Cons r by (simp del: replace_terms.simps matches_at.simps)
      then have h: "canonicalize a = canonicalize c" and t: "matches_at q' (replace_terms cs)"
        by simp_all
      have "matches_at q' cs"
        using "2.IH"(3) [OF _ _ q' t] False by blast
      then show ?thesis
        using Cons h by simp
    qed
  qed
qed

lemma no_term_in_replace_terms:
  "\<not> contains_ci (replace_terms s) ''minecraft'' \<and> \<not> contains_ci (replace_terms s) ''skywars''"
proof (induction s rule: replace_terms.induct)
  case 1
  show ?case by simp
next
  case (2 c cs)
  show ?case
  proof (cases "matches_at ''minecraft'' (c # cs)")
    case True
    have "replace_terms (c # cs) = ''pixel fantasy'' @ replace_terms (drop 8 cs)"
      using True by (rule replace_terms_minecraft)
    then show ?thesis
      using "2.IH"(1) [OF True] by (simp only: phrase_then simp_thms)
  next
    case no_m: False
    show ?thesis
    proof (cases "matches_at ''skywars'' (c # cs)")
      case True
      have "replace_terms (c # cs) = ''pixel fantasy'' @ replace_terms (drop 6 cs)"
        using no_m True by (rule replace_terms_skywars)
      then show ?thesis
        using "2.IH"(2) [OF no_m True] by (simp only: phrase_then simp_thms)
    next
      case False
      have r: "replace_terms (c # cs) = c # replace_terms cs"
        using no_m False by (rule replace_terms_keep)
      have m: "\<not> matches_at ''minecraft'' (c # replace_terms cs)"
      proof
        assume "matches_at ''minecraft'' (c # replace_terms cs)"
        then have h: "canonicalize CHR ''m'' = canonicalize c"
          and t: "matches_at ''inecraft'' (replace_terms cs)"
          by simp_all
        have "matches_at ''inecraft'' cs"
          by (rule matches_at_replace_terms [OF _ t]) (simp add: canonicalize_def)
        then show False
          using no_m h by simp
      qed
      have k: "\<not> matches_at ''skywars'' (c # replace_terms cs)"
      proof
        assume "matches_at ''skywars'' (c # replace_terms cs)"
        then have h: "canonicalize CHR ''s'' = canonicalize c"
          and t: "matches_at ''kywars'' (replace_terms cs)"
          by simp_all
        have "matches_at ''kywars'' cs"
          by (rule matches_at_replace_terms [OF _ t]) (simp add: canonicalize_def)
        then show False
          using False h by simp
      qed
      show ?thesis
        using "2.IH"(3) [OF no_m False] m k by (simp add: r del: replace_terms.simps)
    qed
  qed
qed


lemma matches_at_barrier:
  "\<forall>a \<in> set p. canonicalize a \<noteq> canonicalize d \<Longrightarrow> p \<noteq> []
   \<Longrightarrow> matches_at p (x @ d # y) = matches_at p x"
proof (induction p x rule: matches_at.induct)
  case (1 s)
  then show ?case by simp
next
  case (2 p ps)
  then show ?case by simp
next
  case (3 p ps c cs)
  then show ?case by (cases ps) simp_all
qed

lemma contains_ci_barrier:
  assumes "\<forall>a \<in> set p. canonicalize a \<noteq> canonicalize d" and "p \<noteq> []"
  shows "contains_ci (x @ d # y) p = (contains_ci x p \<or> contains_ci y p)"
proof (induction x)
  case Nil
  obtain a ps where p: "p = a # ps"
    using assms(2) by (cases p) auto
  then have "canonicalize a \<noteq> canonicalize d"
    using assms(1) by simp
  then show ?case
    by (simp add: p)
next
  case (Cons c x)
  have "matches_at p (c # x @ d # y) = matches_at p (c # x)"
    using matches_at_barrier [OF assms, of "c # x" y] by simp
  then show ?case
    using Cons by auto
qed

lemma template_head_then:
  "contains_ci (tl template_head @ r) ''minecraft'' = contains_ci r ''minecraft''"
  "contains_ci (tl template_head @ r) ''skywars'' = contains_ci r ''skywars''"
  by (simp_all add: template_head_def canonicalize_def)

lemma template_tail_split: "butlast template_tail = CHR ''.'' # tl (butlast template_tail)"
  by (simp add: template_tail_def)

lemma template_tail_clean:
  "\<not> contains_ci (tl (butlast template_tail)) ''minecraft''"
  "\<not> contains_ci (tl (butlast template_tail)) ''skywars''"
  by (simp_all add: template_tail_def canonicalize_def)

lemma then_template_tail:
  "contains_ci (r @ butlast template_tail) ''minecraft'' = contains_ci r ''minecraft''"
  "contains_ci (r @ butlast template_tail) ''skywars'' = contains_ci r ''skywars''"
proof -
  have m: "\<forall>a \<in> set ''minecraft''. canonicalize a \<noteq> canonicalize CHR ''.''"
    by (simp add: canonicalize_def)
  have k: "\<forall>a \<in> set ''skywars''. canonicalize a \<noteq> canonicalize CHR ''.''"
    by (simp add: canonicalize_def)
  show "contains_ci (r @ butlast template_tail) ''minecraft'' = contains_ci r ''minecraft''"
    using contains_ci_barrier [OF m, of r "tl (butlast template_tail)"] template_tail_clean(1)
      template_tail_split by simp
  show "contains_ci (r @ butlast template_tail) ''skywars'' = contains_ci r ''skywars''"
    using contains_ci_barrier [OF k, of r "tl (butlast template_tail)"] template_tail_clean(2)
      template_tail_split by simp
qed

lemma no_term_in_finalPrompt:
  "\<not> contains_ci (finalPrompt (safePrompt prompt)) ''minecraft''"
  "\<not> contains_ci (finalPrompt (safePrompt prompt)) ''skywars''"
  using no_term_in_replace_terms [of prompt] contains_ci_trim [of "replace_terms prompt"]
  by (auto simp: finalPrompt_eq safePrompt_def template_head_then then_template_tail)

lemma matches_at_same_letters: "matches_at p s \<Longrightarrow> same_letters (take (length p) s) p"
  by (induction p s rule: matches_at.induct) (simp_all add: same_letters_def)

lemma replaced_replace_terms: "replaced s (replace_terms s)"
proof (induction s rule: replace_terms.induct)
  case 1
  show ?case by simp
next
  case (2 c cs)
  have phrase: "starts_with ''pixel fantasy'' (''pixel fantasy'' @ r)"
    "drop 13 (''pixel fantasy'' @ r) = r" for r
    by simp_all
  show ?case
  proof (cases "matches_at ''minecraft'' (c # cs)")
    case True
    have "length ''minecraft'' = 9"
      by simp
    then have w: "same_letters (take 9 (c # cs)) ''minecraft''"
      using matches_at_same_letters [OF True] by (simp only:)
    have "replaced (c # cs) (''pixel fantasy'' @ replace_terms (drop 8 cs))"
      using w "2.IH"(1) [OF True] by (simp only: replaced.simps phrase simp_thms)
    then show ?thesis
      by (simp only: replace_terms_minecraft [OF True])
  next
    case no_m: False
    show ?thesis
    proof (cases "matches_at ''skywars'' (c # cs)")
      case True
      have "length ''skywars'' = 7"
        by simp
      then have w: "same_letters (take 7 (c # cs)) ''skywars''"
        using matches_at_same_letters [OF True] by (simp only:)
      have "replaced (c # cs) (''pixel fantasy'' @ replace_terms (drop 6 cs))"
        using w "2.IH"(2) [OF no_m True] by (simp only: replaced.simps phrase simp_thms)
      then show ?thesis
        by (simp only: replace_terms_skywars [OF no_m True])
    next
      case False
      have "replaced (c # cs) (c # replace_terms cs)"
        using "2.IH"(3) [OF no_m False] by (simp only: replaced.simps list.case simp_thms)
      then show ?thesis
        by (simp only: replace_terms_keep [OF no_m False])
    qed
  qed
qed

lemma generate_fetch_once:
  "body_prompt req_body = JStr prompt
   \<Longrightarrow> generate fetch S req_body
       = generate (fetch_constant (fetch (finalPrompt (safePrompt prompt)))) S req_body"
  by (simp add: generate_def Let_def generate_image_def fetch_constant_def)

lemma scenario:
  "contains (finalPrompt (safePrompt ''minecraft castle'')) ''pixel fantasy castle''"
  "\<not> contains (finalPrompt (safePrompt ''minecraft castle'')) ''minecraft''"
  by (simp_all add: finalPrompt_eq safePrompt_def trim_def template_head_def template_tail_def
      is_white_space_def canonicalize_def)

section \<open>Random tokens\<close>

lemma length_chars: "length chars = 62"
  by (simp add: chars_def)

lemma chars_alphanumeric: "list_all alphanumeric chars"
  by (simp add: chars_def alphanumeric_def)

lemma round_half_even_nonneg: "0 \<le> q \<Longrightarrow> 0 \<le> round_half_even q"
  by (auto simp: round_half_even_def Let_def)

lemma round_half_even_below:
  assumes "q + 1 / 2 < of_int N"
  shows "round_half_even q \<le> N - 1"
proof -
  have f: "of_int \<lfloor>q\<rfloor> \<le> q"
    by simp
  have "\<lfloor>q\<rfloor> < N"
    using assms by (simp add: floor_less_iff)
  moreover have "\<lfloor>q\<rfloor> + 1 < N" if "1 / 2 \<le> q - of_int \<lfloor>q\<rfloor>"
  proof -
    have "of_int \<lfloor>q\<rfloor> + 1 < (of_int N :: rat)"
      using that assms by linarith
    then have "(of_int (\<lfloor>q\<rfloor> + 1) :: rat) < of_int N"
      by simp
    then show ?thesis
      by (simp only: of_int_less_iff)
  qed
  ultimately show ?thesis
    by (auto simp: round_half_even_def Let_def not_less)
qed

lemma ulp_shift_ge: "n \<le> ulp_shift x n"
proof (induction x n rule: ulp_shift.induct)
  case (1 x n)
  show ?case
  proof (cases "1074 \<le> n \<or> 2 ^ 52 \<le> x * 2 ^ n")
    case True
    then show ?thesis by (subst ulp_shift.simps) simp
  next
    case False
    then have "ulp_shift x n = ulp_shift x (n + 1)"
      by (subst ulp_shift.simps) simp
    then show ?thesis
      using "1.IH" [OF False] by simp
  qed
qed

lemma ulp_shift_least:
  assumes "\<forall>m. n \<le> m \<and> m < M \<longrightarrow> x * 2 ^ m < 2 ^ 52" and "M \<le> 1074" and "n \<le> M"
  shows "M \<le> ulp_shift x n"
  using assms
proof (induction x n rule: ulp_shift.induct)
  case (1 x n)
  show ?case
  proof (cases "n = M")
    case True
    then show ?thesis using ulp_shift_ge [of n x] by simp
  next
    case False
    then have lt: "n < M" using "1.prems"(3) by simp
    then have stop: "\<not> (1074 \<le> n \<or> 2 ^ 52 \<le> x * 2 ^ n)"
      using "1.prems"(1,2) by (auto simp: not_le)
    then have "ulp_shift x n = ulp_shift x (n + 1)"
      by (subst ulp_shift.simps) simp
    moreover have "M \<le> ulp_shift x (n + 1)"
      using "1.IH" [OF stop] "1.prems"(1,2) lt by simp
    ultimately show ?thesis by simp
  qed
qed

lemma ulp_shift_before:
  "n \<le> m \<Longrightarrow> m < ulp_shift x n \<Longrightarrow> x * 2 ^ m < 2 ^ 52"
proof (induction x n rule: ulp_shift.induct)
  case (1 x n)
  show ?case
  proof (cases "1074 \<le> n \<or> 2 ^ 52 \<le> x * 2 ^ n")
    case True
    then have "ulp_shift x n = n" by (subst ulp_shift.simps) simp
    then show ?thesis using "1.prems" by simp
  next
    case False
    then have eq: "ulp_shift x n = ulp_shift x (n + 1)"
      by (subst ulp_shift.simps) simp
    show ?thesis
    proof (cases "m = n")
      case True
      then show ?thesis using False by (simp add: not_le)
    next
      case ne: False
      then show ?thesis
        using "1.IH" [OF False] "1.prems" eq by simp
    qed
  qed
qed

lemma double_below_one:
  assumes "is_double r" and "0 \<le> r" and "r < 1"
  shows "r \<le> 1 - 1 / 2 ^ 53"
proof -
  define n where "n = ulp_shift r 0"
  define k where "k = round_half_even (r * 2 ^ n)"
  have r: "r = of_int k / 2 ^ n"
    using assms(1) by (simp add: is_double_def round_double_def n_def k_def Let_def)
  have "\<forall>m. 0 \<le> m \<and> m < 53 \<longrightarrow> r * 2 ^ m < 2 ^ 52"
  proof (intro allI impI)
    fix m :: nat
    assume "0 \<le> m \<and> m < 53"
    then have "m \<le> 52" by simp
    then have "(2::rat) ^ m \<le> 2 ^ 52"
      by (intro power_increasing) simp_all
    moreover have "r * 2 ^ m < 1 * 2 ^ m"
      using assms(3) by (rule mult_strict_right_mono) simp
    ultimately show "r * 2 ^ m < 2 ^ 52" by (simp only: mult_1 less_le_trans)
  qed
  then have n53: "53 \<le> n"
    unfolding n_def by (intro ulp_shift_least) simp_all
  show ?thesis
  proof (cases "n = 53")
    case True
    have "of_int k < (2::rat) ^ 53"
      using r assms(3) True by (simp add: field_simps)
    also have "(2::rat) ^ 53 = of_int (2 ^ 53)"
      by simp
    finally have "k < 2 ^ 53"
      by (simp only: of_int_less_iff)
    then have "k \<le> 2 ^ 53 - 1"
      by simp
    then have "(of_int k :: rat) \<le> of_int (2 ^ 53 - 1)"
      by (simp only: of_int_le_iff)
    then show ?thesis
      using r True by (simp add: field_simps)
  next
    case False
    then have before: "n - 1 < ulp_shift r 0" and big: "53 \<le> n - 1"
      using n53 by (simp_all add: n_def)
    have a: "r * 2 ^ (n - 1) < 2 ^ 52"
      using ulp_shift_before [of 0 "n - 1" r] before by simp
    have "(2::rat) ^ 53 \<le> 2 ^ (n - 1)"
      using big by (intro power_increasing) simp_all
    then have "r * 2 ^ 53 \<le> r * 2 ^ (n - 1)"
      using assms(2) by (rule mult_left_mono)
    then have "r * 2 ^ 53 < 2 ^ 52"
      using a by (rule le_less_trans)
    then show ?thesis by simp
  qed
qed

lemma floor_times_double:
  assumes "is_double r" and "0 \<le> r" and "r < 1"
  shows "0 \<le> \<lfloor>times_double r 62\<rfloor> \<and> \<lfloor>times_double r 62\<rfloor> < 62"
proof -
  define x where "x = r * 62"
  define n where "n = ulp_shift x 0"
  have r: "r \<le> 1 - 1 / 2 ^ 53"
    using assms by (rule double_below_one)
  have x0: "0 \<le> x" and x62: "x \<le> 62 - 62 / 2 ^ 53"
    using assms(2) r by (simp_all add: x_def)
  have "\<forall>m. 0 \<le> m \<and> m < 47 \<longrightarrow> x * 2 ^ m < 2 ^ 52"
  proof (intro allI impI)
    fix m :: nat
    assume "0 \<le> m \<and> m < 47"
    then have "m \<le> 46" by simp
    then have "(2::rat) ^ m \<le> 2 ^ 46"
      by (intro power_increasing) simp_all
    then have "64 * (2::rat) ^ m \<le> 64 * 2 ^ 46"
      by (simp only: mult_le_cancel_left_pos zero_less_numeral)
    moreover have "x < 64"
      using x62 by simp
    then have "x * 2 ^ m < 64 * 2 ^ m"
      by (rule mult_strict_right_mono) simp
    ultimately have "x * 2 ^ m < 64 * 2 ^ 46"
      by (rule less_le_trans [rotated])
    then show "x * 2 ^ m < 2 ^ 52" by simp
  qed
  then have n47: "47 \<le> n"
    unfolding n_def by (intro ulp_shift_least) simp_all
  then have p: "(2::rat) ^ 47 \<le> 2 ^ n"
    by (intro power_increasing) simp_all
  have "x * 2 ^ n \<le> (62 - 62 / 2 ^ 53) * 2 ^ n"
    using x62 by simp
  also have "\<dots> = 62 * 2 ^ n - 62 * 2 ^ n / 2 ^ 53"
    by (simp add: field_simps)
  also have "\<dots> \<le> 62 * 2 ^ n - 62 * 2 ^ 47 / 2 ^ 53"
    using p by (simp add: field_simps)
  finally have "x * 2 ^ n + 1 / 2 < 62 * 2 ^ n"
    by simp
  then have "x * 2 ^ n + 1 / 2 < of_int (62 * 2 ^ n)"
    by simp
  then have "round_half_even (x * 2 ^ n) \<le> 62 * 2 ^ n - 1"
    by (rule round_half_even_below)
  then have "(of_int (round_half_even (x * 2 ^ n)) :: rat) \<le> of_int (62 * 2 ^ n - 1)"
    by (simp only: of_int_le_iff)
  then have "of_int (round_half_even (x * 2 ^ n)) / 2 ^ n \<le> (62 * 2 ^ n - 1) / (2::rat) ^ n"
    by (simp add: divide_right_mono)
  also have "\<dots> < 62"
    by (simp add: field_simps)
  finally have hi: "times_double r 62 < 62"
    by (simp add: times_double_def round_double_def x_def n_def Let_def)
  have "0 \<le> x * 2 ^ n"
    using x0 by simp
  then have "0 \<le> round_half_even (x * 2 ^ n)"
    by (rule round_half_even_nonneg)
  then have lo: "0 \<le> times_double r 62"
    by (simp add: times_double_def round_double_def x_def n_def Let_def)
  show ?thesis
    using lo hi by (simp add: floor_less_iff)
qed

lemma char_at_chars:
  assumes "is_double x" and "0 \<le> x" and "x < 1"
  shows "\<exists>c. char_at chars \<lfloor>times_double x (rat_of_nat (length chars))\<rfloor> = [c]
             \<and> c \<in> set chars"
proof -
  let ?k = "\<lfloor>times_double x 62\<rfloor>"
  have lo: "0 \<le> ?k" and hi: "?k < 62"
    using floor_times_double [OF assms] by simp_all
  have "nat ?k < 62" using lo hi by linarith
  then have "nat ?k < length chars" by (simp only: length_chars)
  then have m: "chars ! nat ?k \<in> set chars" by (rule nth_mem)
  have "char_at chars \<lfloor>times_double x (rat_of_nat (length chars))\<rfloor> = [chars ! nat ?k]"
    using lo hi by (simp add: char_at_def length_chars)
  then show ?thesis
    using m by blast
qed

lemma cryptoRandomString_loop_result:
  assumes "\<forall>k. i \<le> k \<and> k < len \<longrightarrow> is_double (random k) \<and> 0 \<le> random k \<and> random k < 1"
  shows "length (cryptoRandomString_loop random len i out) = length out + (len - i)
         \<and> set (cryptoRandomString_loop random len i out) \<subseteq> set out \<union> set chars"
  using assms
proof (induction random len i out rule: cryptoRandomString_loop.induct)
  case (1 random len i out)
  show ?case
  proof (cases "i < len")
    case True
    then have "is_double (random i) \<and> 0 \<le> random i \<and> random i < 1"
      using "1.prems" by simp
    then obtain c
      where c: "char_at chars \<lfloor>times_double (random i) (rat_of_nat (length chars))\<rfloor> = [c]"
        "c \<in> set chars"
      using char_at_chars by blast
    have "\<forall>k. i + 1 \<le> k \<and> k < len \<longrightarrow> is_double (random k) \<and> 0 \<le> random k \<and> random k < 1"
      using "1.prems" by simp
    then have IH:
      "length (cryptoRandomString_loop random len (i + 1) (out @ [c]))
         = length (out @ [c]) + (len - (i + 1))
       \<and> set (cryptoRandomString_loop random len (i + 1) (out @ [c]))
           \<subseteq> set (out @ [c]) \<union> set chars"
      using "1.IH" [OF True] c by simp
    have step: "cryptoRandomString_loop random len i out
                  = cryptoRandomString_loop random len (i + 1) (out @ [c])"
      using True c by (subst cryptoRandomString_loop.simps) simp
    have "length (out @ [c]) + (len - (i + 1)) = length out + (len - i)"
      using True by simp
    moreover have "set (out @ [c]) \<union> set chars = set out \<union> set chars"
      using c(2) by auto
    ultimately show ?thesis
      using IH by (simp only: step)
  next
    case False
    then have "cryptoRandomString_loop random len i out = out"
      by (subst cryptoRandomString_loop.simps) simp
    then show ?thesis
      using False by simp
  qed
qed

section \<open>The claims\<close>

text \<open>
  The store after a run, value by value. A falsy value is never in it: the webhook adds
  under \<^verbatim>\<open>if (token)\<close> only.
\<close>

lemma run_member:
  "t \<in> run secret {} rs \<longleftrightarrow> truthy t \<and> paid_unconsumed secret rs t"
proof (induction rs rule: rev_induct)
  case Nil
  show ?case by (simp add: paid_unconsumed_Nil)
next
  case (snoc r rs)
  have inv: "\<forall>v \<in> run secret {} rs. truthy v"
    by (rule run_truthy) simp
  show ?case
    using handle_member [OF inv, of t secret r] snoc.IH
    by (auto simp: run_snoc paid_unconsumed_snoc)
qed

text \<open>
  C1: in every reachable state, a token (a value that \<^verbatim>\<open>if (token)\<close> takes for one, a
  truthy value) is in the store if and only if a signature-verified
  \<^verbatim>\<open>checkout.session.completed\<close> webhook carrying it in its session metadata has been
  processed and no successful generation call has consumed it since.
\<close>

theorem store_history:
  assumes "truthy t"
  shows "t \<in> run secret {} rs \<longleftrightarrow> paid_unconsumed secret rs t"
  using assms by (simp add: run_member)

text \<open>
  C1 at a concrete run: the webhook grants \<^verbatim>\<open>T1\<close>, a generation call whose \<^verbatim>\<open>fetch\<close>
  rejects does not consume it, so \<^verbatim>\<open>T1\<close> is in the store.
\<close>

theorem store_history_witness:
  "truthy (JStr ''T1'')
   \<and> paid_unconsumed (Some ''whsec'')
        [PostWebhook (stripe_accepts (completed_event (JStr ''T1''))) signed_request,
         PostGenerate (fetch_constant (Inl ''TypeError: fetch failed''))
           (generate_body (JStr ''T1'') (JStr ''dragon''))] (JStr ''T1'')
   \<and> JStr ''T1'' \<in> run (Some ''whsec'') {}
        [PostWebhook (stripe_accepts (completed_event (JStr ''T1''))) signed_request,
         PostGenerate (fetch_constant (Inl ''TypeError: fetch failed''))
           (generate_body (JStr ''T1'') (JStr ''dragon''))]"
proof -
  have h: "truthy (JStr ''T1'')
     \<and> paid_unconsumed (Some ''whsec'')
        [PostWebhook (stripe_accepts (completed_event (JStr ''T1''))) signed_request,
         PostGenerate (fetch_constant (Inl ''TypeError: fetch failed''))
           (generate_body (JStr ''T1'') (JStr ''dragon''))] (JStr ''T1'')"
    by (simp add: paid_unconsumed_def grants_def consumes_def stripe_accepts_def
        completed_event_def metadata_token_def upstream_success_def fetch_constant_def
        lessThan_Suc)
  then show ?thesis
    using store_history [of "JStr ''T1''" "Some ''whsec''"
        "[PostWebhook (stripe_accepts (completed_event (JStr ''T1''))) signed_request,
          PostGenerate (fetch_constant (Inl ''TypeError: fetch failed''))
            (generate_body (JStr ''T1'') (JStr ''dragon''))]"]
    by blast
qed




text \<open>
  C3, as the specification states it: with a token in the store, a valid prompt and an
  upstream response with success status, the token is removed unconditionally. The code
  differs when \<^verbatim>\<open>resp.json()\<close> rejects, as it does on a body that is not JSON: the
  \<^verbatim>\<open>catch\<close> answers 500 before \<^verbatim>\<open>paidTokens.delete\<close> is reached and the token stays.
\<close>

theorem generate_consumes_counterexample:
  "has (run (Some ''whsec'') {} [PostWebhook (stripe_accepts (completed_event (JStr ''T1''))) signed_request]) (JStr ''T1'')
   \<and> resp_ok \<lparr>resp_ok = True, resp_text = Inr ''<html>'', resp_json = Inl ''SyntaxError''\<rparr>
   \<and> status (snd (generate
         (fetch_constant
            (Inr \<lparr>resp_ok = True, resp_text = Inr ''<html>'', resp_json = Inl ''SyntaxError''\<rparr>))
         (run (Some ''whsec'') {} [PostWebhook (stripe_accepts (completed_event (JStr ''T1''))) signed_request])
         (generate_body (JStr ''T1'') (JStr ''dragon'')))) = 500
   \<and> JStr ''T1'' \<in> fst (generate
         (fetch_constant
            (Inr \<lparr>resp_ok = True, resp_text = Inr ''<html>'', resp_json = Inl ''SyntaxError''\<rparr>))
         (run (Some ''whsec'') {} [PostWebhook (stripe_accepts (completed_event (JStr ''T1''))) signed_request])
         (generate_body (JStr ''T1'') (JStr ''dragon'')))"
  by (simp add: webhook_def stripe_accepts_def completed_event_def metadata_token_def add_def
      has_def same_value_zero_def generate_def generate_image_def fetch_constant_def
      internal_error_def reply_def)

text \<open>
  C3, amended: in every reachable state, a \<^verbatim>\<open>POST /api/generate\<close> with a token in the
  store and a non-empty string prompt, answered by the image API with a success status
  and a body that \<^verbatim>\<open>resp.json()\<close> delivers, removes the token from the store, whatever
  the body holds; when the body yields neither a \<^verbatim>\<open>b64_json\<close> nor a \<^verbatim>\<open>url\<close> the answer is
  the 500 \<^verbatim>\<open>Resposta inesperada da API.\<close> and the token is gone all the same.
\<close>

theorem generate_consumes:
  assumes "has (run secret {} rs) (body_token req_body)"
    and "body_prompt req_body = JStr p" and "p \<noteq> []"
    and "fetch (finalPrompt (safePrompt p)) = Inr resp"
    and "resp_ok resp"
    and "resp_json resp = Inr data"
  shows "body_token req_body \<notin> fst (generate fetch (run secret {} rs) req_body)
         \<and> \<not> has (fst (generate fetch (run secret {} rs) req_body)) (body_token req_body)
         \<and> fst (generate fetch (run secret {} rs) req_body)
             = delete (run secret {} rs) (body_token req_body)
         \<and> (\<not> truthy (first_b64_json data) \<and> \<not> truthy (first_url data) \<longrightarrow>
              snd (generate fetch (run secret {} rs) req_body)
                = reply 500 (ErrorJson ''Resposta inesperada da API.'' None))"
proof -
  have t: "truthy (body_token req_body)"
    using assms(1) by (rule has_run_truthy)
  have g: "generate fetch (run secret {} rs) req_body
             = generate_image fetch (run secret {} rs) (body_token req_body) p"
    using t truthy_body_token [OF t] assms by (simp add: generate_def Let_def)
  have s: "fst (generate fetch (run secret {} rs) req_body)
             = delete (run secret {} rs) (body_token req_body)"
    using assms by (simp add: g generate_image_store upstream_success_def)
  have prim: "primitive (body_token req_body)"
    using assms(1) by (auto simp: has_def same_value_zero_def)
  have gone: "body_token req_body \<notin> delete (run secret {} rs) (body_token req_body)"
    using prim by (simp add: delete_def same_value_zero_def)
  have gone': "\<not> has (delete (run secret {} rs) (body_token req_body)) (body_token req_body)"
    by (auto simp: has_def delete_def)
  show ?thesis
    using assms gone gone' s by (simp add: g generate_image_def Let_def)
qed

text \<open>
  C3 at a concrete call: the store holds \<^verbatim>\<open>T1\<close>, the image API answers with success
  and the body \<^verbatim>\<open>{"data": [{}]}\<close>; the answer is 500 and \<^verbatim>\<open>T1\<close> has left the store.
\<close>

theorem generate_consumes_witness:
  "has (run (Some ''whsec'') {} [PostWebhook (stripe_accepts (completed_event (JStr ''T1''))) signed_request]) (JStr ''T1'')
   \<and> JStr ''T1'' \<notin> fst (generate
         (fetch_constant
            (Inr \<lparr>resp_ok = True, resp_text = Inr ''{}'',
                  resp_json = Inr (JObj [(''data'', JArr [JObj []])])\<rparr>))
         (run (Some ''whsec'') {} [PostWebhook (stripe_accepts (completed_event (JStr ''T1''))) signed_request])
         (generate_body (JStr ''T1'') (JStr ''dragon'')))
   \<and> snd (generate
         (fetch_constant
            (Inr \<lparr>resp_ok = True, resp_text = Inr ''{}'',
                  resp_json = Inr (JObj [(''data'', JArr [JObj []])])\<rparr>))
         (run (Some ''whsec'') {} [PostWebhook (stripe_accepts (completed_event (JStr ''T1''))) signed_request])
         (generate_body (JStr ''T1'') (JStr ''dragon'')))
       = reply 500 (ErrorJson ''Resposta inesperada da API.'' None)"
proof -
  have h: "has (run (Some ''whsec'') {} [PostWebhook (stripe_accepts (completed_event (JStr ''T1''))) signed_request]) (JStr ''T1'')"
    by (simp add: webhook_def stripe_accepts_def completed_event_def metadata_token_def add_def
        has_def same_value_zero_def)
  have f: "\<not> truthy (first_b64_json (JObj [(''data'', JArr [JObj []])]))
           \<and> \<not> truthy (first_url (JObj [(''data'', JArr [JObj []])]))"
    by (simp add: first_b64_json_def first_url_def)
  show ?thesis
    using h f generate_consumes [of "Some ''whsec''" "[PostWebhook (stripe_accepts (completed_event (JStr ''T1''))) signed_request]"
        "generate_body (JStr ''T1'') (JStr ''dragon'')" "''dragon''"
        "fetch_constant
            (Inr \<lparr>resp_ok = True, resp_text = Inr ''{}'',
                  resp_json = Inr (JObj [(''data'', JArr [JObj []])])\<rparr>)"
        "\<lparr>resp_ok = True, resp_text = Inr ''{}'',
          resp_json = Inr (JObj [(''data'', JArr [JObj []])])\<rparr>"
        "JObj [(''data'', JArr [JObj []])]"]
    by (auto simp: fetch_constant_def)
qed

text \<open>
  C4: a \<^verbatim>\<open>POST /webhook\<close> whose body fails the signature verification against the
  webhook secret is answered 400 and leaves the store as it was; the event is not looked
  at.
\<close>

theorem webhook_bad_signature:
  assumes "constructEvent (raw_body req) (stripe_signature req) secret = Inl message"
  shows "status (snd (webhook constructEvent secret paidTokens req)) = 400
         \<and> fst (webhook constructEvent secret paidTokens req) = paidTokens
         \<and> body (snd (webhook constructEvent secret paidTokens req))
             = SendText (''Webhook Error: '' @ message)"
  using assms by (simp add: webhook_def reply_def)

text \<open>C4 at a concrete request, with \<^verbatim>\<open>T1\<close> in the store.\<close>

theorem webhook_bad_signature_witness:
  "stripe_rejects ''No signatures found'' (raw_body signed_request)
       (stripe_signature signed_request) (Some ''whsec'') = Inl ''No signatures found''
   \<and> status (snd (webhook (stripe_rejects ''No signatures found'') (Some ''whsec'')
        {JStr ''T1''} signed_request)) = 400
   \<and> fst (webhook (stripe_rejects ''No signatures found'') (Some ''whsec'')
        {JStr ''T1''} signed_request) = {JStr ''T1''}"
proof -
  have h: "stripe_rejects ''No signatures found'' (raw_body signed_request)
       (stripe_signature signed_request) (Some ''whsec'') = Inl ''No signatures found''"
    by (simp add: stripe_rejects_def)
  show ?thesis
    using h webhook_bad_signature [of "stripe_rejects ''No signatures found''" signed_request
        "Some ''whsec''" "''No signatures found''" "{JStr ''T1''}"]
    by simp
qed

text \<open>
  C7: in every reachable state, a \<^verbatim>\<open>POST /api/generate\<close> whose token is in the store
  and whose prompt field is missing or is not a string is answered 400.
\<close>

theorem generate_bad_prompt:
  assumes "has (run secret {} rs) (body_token req_body)"
    and "body_prompt req_body = JUndefined \<or> \<not> typeof_string (body_prompt req_body)"
  shows "status (snd (generate fetch (run secret {} rs) req_body)) = 400"
proof -
  have t: "truthy (body_token req_body)"
    using assms(1) by (rule has_run_truthy)
  then show ?thesis
    using truthy_body_token [OF t] assms by (auto simp: generate_def Let_def reply_def)
qed

text \<open>C7 at a concrete request: the store holds \<^verbatim>\<open>T1\<close>, the prompt is the number 7.\<close>

theorem generate_bad_prompt_witness:
  "has (run (Some ''whsec'') {} [PostWebhook (stripe_accepts (completed_event (JStr ''T1''))) signed_request]) (JStr ''T1'')
   \<and> \<not> typeof_string (JNum 7)
   \<and> status (snd (generate (fetch_constant (Inl ''down'')) (run (Some ''whsec'') {} [PostWebhook (stripe_accepts (completed_event (JStr ''T1''))) signed_request])
        (generate_body (JStr ''T1'') (JNum 7)))) = 400"
proof -
  have h: "has (run (Some ''whsec'') {} [PostWebhook (stripe_accepts (completed_event (JStr ''T1''))) signed_request]) (JStr ''T1'')"
    by (simp add: webhook_def stripe_accepts_def completed_event_def metadata_token_def add_def
        has_def same_value_zero_def)
  show ?thesis
    using h generate_bad_prompt [of "Some ''whsec''" "[PostWebhook (stripe_accepts (completed_event (JStr ''T1''))) signed_request]"
        "generate_body (JStr ''T1'') (JNum 7)" "fetch_constant (Inl ''down'')"]
    by simp
qed

text \<open>
  C8: a signature-verified webhook whose event type is not
  \<^verbatim>\<open>checkout.session.completed\<close> leaves the store as it was and is answered 200 with
  \<^verbatim>\<open>{ received: true }\<close>.
\<close>

theorem webhook_other_event:
  assumes "constructEvent (raw_body req) (stripe_signature req) secret = Inr ev"
    and "etype ev \<noteq> ''checkout.session.completed''"
  shows "fst (webhook constructEvent secret paidTokens req) = paidTokens
         \<and> status (snd (webhook constructEvent secret paidTokens req)) = 200
         \<and> body (snd (webhook constructEvent secret paidTokens req)) = ReceivedJson"
  using assms by (simp add: webhook_def reply_def)

text \<open>C8 at a concrete event of type \<^verbatim>\<open>payment_intent.succeeded\<close>.\<close>

theorem webhook_other_event_witness:
  "etype ((completed_event (JStr ''T1'')) \<lparr>etype := ''payment_intent.succeeded''\<rparr>)
     \<noteq> ''checkout.session.completed''
   \<and> fst (webhook
        (stripe_accepts ((completed_event (JStr ''T1'')) \<lparr>etype := ''payment_intent.succeeded''\<rparr>))
        (Some ''whsec'') {} signed_request) = {}
   \<and> status (snd (webhook
        (stripe_accepts ((completed_event (JStr ''T1'')) \<lparr>etype := ''payment_intent.succeeded''\<rparr>))
        (Some ''whsec'') {} signed_request)) = 200
   \<and> body (snd (webhook
        (stripe_accepts ((completed_event (JStr ''T1'')) \<lparr>etype := ''payment_intent.succeeded''\<rparr>))
        (Some ''whsec'') {} signed_request)) = ReceivedJson"
proof -
  have a: "stripe_accepts ((completed_event (JStr ''T1'')) \<lparr>etype := ''payment_intent.succeeded''\<rparr>)
             (raw_body signed_request) (stripe_signature signed_request) (Some ''whsec'')
           = Inr ((completed_event (JStr ''T1'')) \<lparr>etype := ''payment_intent.succeeded''\<rparr>)"
    by (simp add: stripe_accepts_def)
  have b: "etype ((completed_event (JStr ''T1'')) \<lparr>etype := ''payment_intent.succeeded''\<rparr>)
             \<noteq> ''checkout.session.completed''"
    by simp
  show ?thesis
    using a b webhook_other_event
        [of "stripe_accepts ((completed_event (JStr ''T1'')) \<lparr>etype := ''payment_intent.succeeded''\<rparr>)"
            signed_request "Some ''whsec''"
            "(completed_event (JStr ''T1'')) \<lparr>etype := ''payment_intent.succeeded''\<rparr>" "{}"]
    by simp
qed

text \<open>
  C9, as the specification states it: when the image API answers with a status that is
  not a success, the handler returns 500 with the upstream error text and the token
  stays in the store. The code differs on the text when \<^verbatim>\<open>resp.text()\<close> rejects (the
  connection breaks while the body is read): the \<^verbatim>\<open>catch\<close> answers 500 with
  \<^verbatim>\<open>Erro interno.\<close> and the error of the read, not with an upstream text. The token
  stays in the store there too.
\<close>

theorem generate_upstream_failure_counterexample:
  "has (run (Some ''whsec'') {} [PostWebhook (stripe_accepts (completed_event (JStr ''T1''))) signed_request]) (JStr ''T1'')
   \<and> \<not> resp_ok \<lparr>resp_ok = False, resp_text = Inl ''TypeError: terminated'',
                  resp_json = Inl ''TypeError: terminated''\<rparr>
   \<and> snd (generate
         (fetch_constant
            (Inr \<lparr>resp_ok = False, resp_text = Inl ''TypeError: terminated'',
                  resp_json = Inl ''TypeError: terminated''\<rparr>))
         (run (Some ''whsec'') {} [PostWebhook (stripe_accepts (completed_event (JStr ''T1''))) signed_request])
         (generate_body (JStr ''T1'') (JStr ''dragon'')))
       = reply 500 (ErrorJson ''Erro interno.'' (Some ''TypeError: terminated''))"
  by (simp add: webhook_def stripe_accepts_def completed_event_def metadata_token_def add_def
      has_def same_value_zero_def generate_def generate_image_def fetch_constant_def
      internal_error_def)

text \<open>
  C9, amended: in every reachable state, a \<^verbatim>\<open>POST /api/generate\<close> with a token in the
  store and a non-empty string prompt, answered by the image API with a status that is
  not a success, is answered 500, with the upstream error text as \<^verbatim>\<open>details\<close> whenever
  \<^verbatim>\<open>resp.text()\<close> delivers that text; the store is as it was, the token is still in it,
  and the same request is not refused with 403 when it comes again.
\<close>

theorem generate_upstream_failure:
  assumes "has (run secret {} rs) (body_token req_body)"
    and "body_prompt req_body = JStr p" and "p \<noteq> []"
    and "fetch (finalPrompt (safePrompt p)) = Inr resp"
    and "\<not> resp_ok resp"
  shows "status (snd (generate fetch (run secret {} rs) req_body)) = 500
         \<and> (\<forall>txt. resp_text resp = Inr txt \<longrightarrow>
               body (snd (generate fetch (run secret {} rs) req_body))
                 = ErrorJson ''Falha ao gerar imagem.'' (Some txt))
         \<and> fst (generate fetch (run secret {} rs) req_body) = run secret {} rs
         \<and> has (fst (generate fetch (run secret {} rs) req_body)) (body_token req_body)
         \<and> (\<forall>fetch'. status (snd (generate fetch'
                         (fst (generate fetch (run secret {} rs) req_body)) req_body)) \<noteq> 403)"
proof -
  have t: "truthy (body_token req_body)"
    using assms(1) by (rule has_run_truthy)
  have g: "generate fetch (run secret {} rs) req_body
             = generate_image fetch (run secret {} rs) (body_token req_body) p"
    using t truthy_body_token [OF t] assms by (simp add: generate_def Let_def)
  have s: "fst (generate fetch (run secret {} rs) req_body) = run secret {} rs"
    using assms by (simp add: g generate_image_def split: sum.splits)
  have "status (snd (generate fetch' (run secret {} rs) req_body)) \<noteq> 403" for fetch'
    using t truthy_body_token [OF t] assms
    by (simp add: generate_def generate_image_def reply_def internal_error_def Let_def
        split: sum.splits)
  then show ?thesis
    using assms s
    by (simp add: g generate_image_def reply_def internal_error_def split: sum.splits)
qed

text \<open>
  C9 at a concrete call: the store holds \<^verbatim>\<open>T1\<close> and the image API answers with a
  failure status and the text \<^verbatim>\<open>rate limit\<close>.
\<close>

theorem generate_upstream_failure_witness:
  "has (run (Some ''whsec'') {} [PostWebhook (stripe_accepts (completed_event (JStr ''T1''))) signed_request]) (JStr ''T1'')
   \<and> status (snd (generate
         (fetch_constant
            (Inr \<lparr>resp_ok = False, resp_text = Inr ''rate limit'', resp_json = Inl ''SyntaxError''\<rparr>))
         (run (Some ''whsec'') {} [PostWebhook (stripe_accepts (completed_event (JStr ''T1''))) signed_request])
         (generate_body (JStr ''T1'') (JStr ''dragon'')))) = 500
   \<and> body (snd (generate
         (fetch_constant
            (Inr \<lparr>resp_ok = False, resp_text = Inr ''rate limit'', resp_json = Inl ''SyntaxError''\<rparr>))
         (run (Some ''whsec'') {} [PostWebhook (stripe_accepts (completed_event (JStr ''T1''))) signed_request])
         (generate_body (JStr ''T1'') (JStr ''dragon''))))
       = ErrorJson ''Falha ao gerar imagem.'' (Some ''rate limit'')
   \<and> has (fst (generate
         (fetch_constant
            (Inr \<lparr>resp_ok = False, resp_text = Inr ''rate limit'', resp_json = Inl ''SyntaxError''\<rparr>))
         (run (Some ''whsec'') {} [PostWebhook (stripe_accepts (completed_event (JStr ''T1''))) signed_request])
         (generate_body (JStr ''T1'') (JStr ''dragon'')))) (JStr ''T1'')"
proof -
  have h: "has (run (Some ''whsec'') {} [PostWebhook (stripe_accepts (completed_event (JStr ''T1''))) signed_request]) (JStr ''T1'')"
    by (simp add: webhook_def stripe_accepts_def completed_event_def metadata_token_def add_def
        has_def same_value_zero_def)
  show ?thesis
    using h generate_upstream_failure [of "Some ''whsec''" "[PostWebhook (stripe_accepts (completed_event (JStr ''T1''))) signed_request]"
        "generate_body (JStr ''T1'') (JStr ''dragon'')" "''dragon''"
        "fetch_constant
            (Inr \<lparr>resp_ok = False, resp_text = Inr ''rate limit'', resp_json = Inl ''SyntaxError''\<rparr>)"
        "\<lparr>resp_ok = False, resp_text = Inr ''rate limit'', resp_json = Inl ''SyntaxError''\<rparr>"]
    by (simp add: fetch_constant_def)
qed




text \<open>
  C5: for the prompt \<^verbatim>\<open>minecraft castle\<close> the composed prompt contains
  \<^verbatim>\<open>pixel fantasy castle\<close> and does not contain \<^verbatim>\<open>minecraft\<close>. For every prompt: the
  substitution turns occurrences of the two terms, in any letter case, into
  \<^verbatim>\<open>pixel fantasy\<close> and changes nothing else; no occurrence of either term, in any letter
  case, is left after it, nor in the composed prompt, which is the fixed template around
  the trimmed result; and the composed prompt is what the handler gives \<^verbatim>\<open>fetch\<close>.
\<close>

theorem denylist_prompt:
  "contains (finalPrompt (safePrompt ''minecraft castle'')) ''pixel fantasy castle''
   \<and> \<not> contains (finalPrompt (safePrompt ''minecraft castle'')) ''minecraft''
   \<and> replaced prompt (replace_terms prompt)
   \<and> \<not> contains_ci (replace_terms prompt) ''minecraft''
   \<and> \<not> contains_ci (replace_terms prompt) ''skywars''
   \<and> finalPrompt (safePrompt prompt)
       = tl template_head @ trim (replace_terms prompt) @ butlast template_tail
   \<and> \<not> contains_ci (finalPrompt (safePrompt prompt)) ''minecraft''
   \<and> \<not> contains_ci (finalPrompt (safePrompt prompt)) ''skywars''
   \<and> (body_prompt req_body = JStr prompt \<longrightarrow>
        generate fetch paidTokens req_body
          = generate (fetch_constant (fetch (finalPrompt (safePrompt prompt)))) paidTokens req_body)"
proof (intro conjI impI)
  show "contains (finalPrompt (safePrompt ''minecraft castle'')) ''pixel fantasy castle''"
    by (rule scenario(1))
  show "\<not> contains (finalPrompt (safePrompt ''minecraft castle'')) ''minecraft''"
    by (rule scenario(2))
  show "replaced prompt (replace_terms prompt)"
    by (rule replaced_replace_terms)
  show "\<not> contains_ci (replace_terms prompt) ''minecraft''"
    using no_term_in_replace_terms [of prompt] by blast
  show "\<not> contains_ci (replace_terms prompt) ''skywars''"
    using no_term_in_replace_terms [of prompt] by blast
  show "finalPrompt (safePrompt prompt)
          = tl template_head @ trim (replace_terms prompt) @ butlast template_tail"
    by (simp only: finalPrompt_eq safePrompt_def)
  show "\<not> contains_ci (finalPrompt (safePrompt prompt)) ''minecraft''"
    by (rule no_term_in_finalPrompt(1))
  show "\<not> contains_ci (finalPrompt (safePrompt prompt)) ''skywars''"
    by (rule no_term_in_finalPrompt(2))
  show "generate fetch paidTokens req_body
          = generate (fetch_constant (fetch (finalPrompt (safePrompt prompt)))) paidTokens req_body"
    if "body_prompt req_body = JStr prompt"
    using that by (rule generate_fetch_once)
qed

text \<open>
  C5 at a concrete prompt with both terms in mixed case, given by a request whose token
  is not in the store.
\<close>

theorem denylist_prompt_witness:
  "body_prompt (generate_body (JStr ''T1'') (JStr '' SkyWars MINECRAFT fort ''))
     = JStr '' SkyWars MINECRAFT fort ''
   \<and> safePrompt '' SkyWars MINECRAFT fort '' = ''pixel fantasy pixel fantasy fort''
   \<and> replaced '' SkyWars MINECRAFT fort '' (replace_terms '' SkyWars MINECRAFT fort '')
   \<and> \<not> contains_ci (finalPrompt (safePrompt '' SkyWars MINECRAFT fort '')) ''minecraft''
   \<and> \<not> contains_ci (finalPrompt (safePrompt '' SkyWars MINECRAFT fort '')) ''skywars''"
proof -
  have e: "safePrompt '' SkyWars MINECRAFT fort '' = ''pixel fantasy pixel fantasy fort''"
    by (simp add: safePrompt_def trim_def is_white_space_def canonicalize_def)
  have r: "body_prompt (generate_body (JStr ''T1'') (JStr '' SkyWars MINECRAFT fort ''))
             = JStr '' SkyWars MINECRAFT fort ''"
    by simp
  show ?thesis
    using r e denylist_prompt [of "'' SkyWars MINECRAFT fort ''"
        "generate_body (JStr ''T1'') (JStr '' SkyWars MINECRAFT fort '')"
        "fetch_constant (Inl ''down'')" "{}"]
    by blast
qed

text \<open>
  C6: every token that \<^verbatim>\<open>makeToken\<close> produces, whatever doubles from 0 up to but not
  including 1 the calls of \<^verbatim>\<open>Math.random\<close> return, is a string of exactly 32
  characters, each of them one of the letters a to z, A to Z and the digits 0 to 9.
\<close>

theorem makeToken_alphanumeric:
  assumes "\<forall>i < 32. is_double (random i) \<and> 0 \<le> random i \<and> random i < 1"
  shows "length (makeToken random) = 32 \<and> list_all alphanumeric (makeToken random)"
proof -
  have "length (makeToken random) = 32 \<and> set (makeToken random) \<subseteq> set chars"
    using cryptoRandomString_loop_result [of 0 32 random "[]"] assms
    by (simp add: makeToken_def cryptoRandomString_def)
  then show ?thesis
    using chars_alphanumeric by (auto simp: list_all_iff)
qed

text \<open>
  C6 at a concrete source of random numbers: every call returns the double
  \<open>rounding_sample\<close>, whose exact product with 62 is below 32 and whose product as a
  double is 32, so that every character is \<^verbatim>\<open>chars[32]\<close>.
\<close>

theorem makeToken_alphanumeric_witness:
  "is_double rounding_sample \<and> 0 \<le> rounding_sample \<and> rounding_sample < 1
   \<and> \<lfloor>rounding_sample * 62\<rfloor> = 31
   \<and> makeToken (random_constant rounding_sample) = ''GGGGGGGGGGGGGGGGGGGGGGGGGGGGGGGG''
   \<and> length (makeToken (random_constant rounding_sample)) = 32
   \<and> list_all alphanumeric (makeToken (random_constant rounding_sample))"
proof -
  have d: "is_double rounding_sample"
    by code_simp
  have f: "\<lfloor>rounding_sample * 62\<rfloor> = 31"
    by code_simp
  have u: "0 \<le> rounding_sample \<and> rounding_sample < 1"
    by (simp add: rounding_sample_def)
  have h: "\<forall>i < 32. is_double (random_constant rounding_sample i)
             \<and> 0 \<le> random_constant rounding_sample i \<and> random_constant rounding_sample i < 1"
    using d u by (simp add: random_constant_def)
  have c: "char_at chars \<lfloor>times_double rounding_sample (rat_of_nat (length chars))\<rfloor> = ''G''"
    by code_simp
  have e: "makeToken (random_constant rounding_sample) = ''GGGGGGGGGGGGGGGGGGGGGGGGGGGGGGGG''"
    by (simp add: makeToken_def cryptoRandomString_def cryptoRandomString_loop.simps
        random_constant_def c)
  show ?thesis
    using d u f e makeToken_alphanumeric [OF h] by blast
qed

end
